theory Spec2Isabelle
  imports Main "HOL-Library.AList"
begin

section \<open>Values and strings of the host language\<close>

text \<open>
  A string is a list of code units. The model covers strings whose code units lie in
  U+0000..U+00FF, one \<^typ>\<open>char\<close> per code unit.
\<close>

definition LF :: char where "LF = CHR 0x0A"
definition CR :: char where "CR = CHR 0x0D"

text \<open>
  The code units that \<open>String.prototype.trim\<close> removes among U+0000..U+00FF
  (WhiteSpace and LineTerminator): TAB, LF, VT, FF, CR, SP and NBSP.
\<close>

definition is_js_whitespace :: "char \<Rightarrow> bool" where
  "is_js_whitespace c \<longleftrightarrow>
     c = CHR 0x09 \<or> c = CHR 0x0A \<or> c = CHR 0x0B \<or> c = CHR 0x0C \<or> c = CHR 0x0D \<or>
     c = CHR 0x20 \<or> c = CHR 0xA0"

definition trimStart :: "string \<Rightarrow> string" where
  "trimStart s = dropWhile is_js_whitespace s"

definition trimEnd :: "string \<Rightarrow> string" where
  "trimEnd s = rev (dropWhile is_js_whitespace (rev s))"

definition trim :: "string \<Rightarrow> string" where
  "trim s = trimEnd (trimStart s)"

text \<open>\<open>Array.prototype.join\<close> on an array of strings.\<close>

fun join :: "string \<Rightarrow> string list \<Rightarrow> string" where
  "join sep [] = []"
| "join sep [x] = x"
| "join sep (x # y # ys) = x @ sep @ join sep (y # ys)"

text \<open>\<open>s.replace(/\r/g, "")\<close>: every carriage return is deleted.\<close>

definition strip_cr :: "string \<Rightarrow> string" where
  "strip_cr s = filter (\<lambda>c. c \<noteq> CR) s"

text \<open>
  \<open>s.replace(/(?<=[^\n])\n(?=[^\n*-])/g, " ")\<close>. A match is one line feed; the lookbehind
  needs a preceding code unit other than a line feed, the lookahead a following code unit
  other than a line feed, \<open>*\<close> and \<open>-\<close>. Both look at the original string, so the scan
  carries the previous original code unit.
\<close>

fun collapse_from :: "char option \<Rightarrow> string \<Rightarrow> string" where
  "collapse_from prev [] = []"
| "collapse_from prev (c # cs) =
     (if c = LF
         \<and> (case prev of None \<Rightarrow> False | Some p \<Rightarrow> p \<noteq> LF)
         \<and> (case cs of [] \<Rightarrow> False | n # _ \<Rightarrow> n \<noteq> LF \<and> n \<noteq> CHR ''*'' \<and> n \<noteq> CHR ''-'')
      then CHR '' '' else c) # collapse_from (Some c) cs"

definition collapse_newlines :: "string \<Rightarrow> string" where
  "collapse_newlines s = collapse_from None s"

text \<open>
  \<open>s.split(sep)\<close> for a string separator: the segments between the non-overlapping
  occurrences of \<open>sep\<close>, found from the left. The empty separator splits into code units.
\<close>

function split_go :: "string \<Rightarrow> string \<Rightarrow> string \<Rightarrow> string list" where
  "split_go sep cur [] = [cur]"
| "split_go sep cur (c # cs) =
     (if sep \<noteq> [] \<and> take (length sep) (c # cs) = sep
      then cur # split_go sep [] (drop (length sep) (c # cs))
      else split_go sep (cur @ [c]) cs)"
  by pat_completeness auto
termination
  by (relation "measure (\<lambda>(sep, cur, s). length s)") auto

definition split :: "string \<Rightarrow> string \<Rightarrow> string list" where
  "split sep s = (if sep = [] then map (\<lambda>c. [c]) s else split_go sep [] s)"

text \<open>\<open>xs.at(-1)\<close>: the last element, \<open>undefined\<close> on the empty array.\<close>

definition at_last :: "'a list \<Rightarrow> 'a option" where
  "at_last xs = (if xs = [] then None else Some (last xs))"

text \<open>
  Values that annotation fields hold. The type \<^typ>\<open>'n\<close> stands for the numbers of the
  host language; an object is the list of its own properties in insertion order.
\<close>

datatype 'n json =
    JNull
  | JBool bool
  | JNumber 'n
  | JString string
  | JArray "'n json list"
  | JObject "(string \<times> 'n json) list"

type_synonym 'n Annotations = "(string \<times> 'n json) list"

definition Object_keys :: "'n Annotations \<Rightarrow> string list" where
  "Object_keys obj = map fst obj"

text \<open>
  Object spread \<open>{...target, ...source}\<close>: every own key of \<open>source\<close>, in order, is read from
  \<open>source\<close> and written to the result; \<open>undefined\<close> spreads nothing. Writing keeps the
  position of a key that exists and appends a new one.
\<close>

definition spread :: "'n Annotations \<Rightarrow> 'n Annotations option \<Rightarrow> 'n Annotations" where
  "spread target source =
     (case source of
        None \<Rightarrow> target
      | Some src \<Rightarrow>
          fold (\<lambda>k acc. case map_of src k of None \<Rightarrow> acc | Some v \<Rightarrow> AList.update k v acc)
               (Object_keys src) target)"

section \<open>The compiler interface\<close>

type_synonym node = nat
type_synonym symbol = nat

text \<open>\<open>ts.SymbolDisplayPart\<close> and \<open>ts.JSDocTagInfo\<close>; the body of a tag is optional.\<close>

record SymbolDisplayPart =
  part_text :: string
  kind :: string

record JSDocTagInfo =
  name :: string
  tag_text :: "SymbolDisplayPart list option"

text \<open>\<open>ts.SymbolFlags.ConstEnum\<close> is \<open>1 << 7\<close>; \<open>ts.SymbolFlags.NamespaceModule\<close> is \<open>1 << 10\<close>.\<close>

definition SymbolFlags_ConstEnum :: nat where "SymbolFlags_ConstEnum = 128"
definition SymbolFlags_NamespaceModule :: nat where "SymbolFlags_NamespaceModule = 1024"

text \<open>A flag is set in a flag word when the two share a bit.\<close>

definition flag_set :: "nat \<Rightarrow> nat \<Rightarrow> bool" where
  "flag_set flags f \<longleftrightarrow> and flags f \<noteq> 0"

datatype exn = SyntaxError string | Thrown string

text \<open>
  What the reader is constructed with and what it calls outside this file. Nodes and
  symbols are object identities. \<open>json5_parse\<close> returns \<open>Inl\<close> where \<open>json5.parse\<close> throws;
  \<open>js_Number\<close> is the conversion \<open>Number(v)\<close> of a string or \<open>undefined\<close>;
  \<open>forEachChild\<close> lists the children the callback is called on, in order.

  \<open>symbolAtNode\<close> (Utils/symbolAtNode) and \<open>super_getAnnotations\<close>, the \<open>getAnnotations\<close>
  of the base reader (BasicAnnotationsReader, constructed with the extra tags), are
  parameters as well: what they return for a node is given, not computed here.
\<close>

record 'n reader =
  markdownDescription :: "bool option"
  symbolAtNode :: "node \<Rightarrow> symbol option"
  getDocumentationComment :: "symbol \<Rightarrow> SymbolDisplayPart list"
  getJsDocTags :: "symbol \<Rightarrow> JSDocTagInfo list"
  getFlags :: "symbol \<Rightarrow> nat"
  getDeclarations :: "symbol \<Rightarrow> node list option"
  forEachChild :: "node \<Rightarrow> node list"
  getText :: "node \<Rightarrow> string"
  json5_parse :: "string \<Rightarrow> exn + 'n json"
  js_Number :: "string option \<Rightarrow> 'n"
  super_getAnnotations :: "node \<Rightarrow> 'n Annotations option"

section \<open>ExtendedAnnotationsReader\<close>

definition isNullable :: "'n reader \<Rightarrow> node \<Rightarrow> bool" where
  "isNullable r node =
     (case symbolAtNode r node of
        None \<Rightarrow> False
      | Some symbol \<Rightarrow>
          (let jsDocTags = getJsDocTags r symbol in
           if length jsDocTags = 0 then False
           else (case find (\<lambda>tag. name tag = ''nullable'') jsDocTags of
                   None \<Rightarrow> False
                 | Some jsDocTag \<Rightarrow> True)))"

text \<open>The callback of \<open>forEachChild\<close> in \<open>getDescriptionAnnotation\<close>, run over the children.\<close>

fun enum_members :: "'n reader \<Rightarrow> node list \<Rightarrow> 'n json list \<Rightarrow> 'n json list" where
  "enum_members r [] anyOf = anyOf"
| "enum_members r (child # rest) anyOf =
     (case symbolAtNode r child of
        None \<Rightarrow> enum_members r rest anyOf
      | Some symbol \<Rightarrow>
          (let description =
                 trim (strip_cr (join '' '' (map part_text (getDocumentationComment r symbol))));
               val = at_last (split ''= '' (getText r child))
           in enum_members r rest
                (anyOf @ [JObject [(''const'', JNumber (js_Number r val)),
                                   (''description'', JString description)]])))"

definition getDescriptionAnnotation :: "'n reader \<Rightarrow> node \<Rightarrow> 'n Annotations option" where
  "getDescriptionAnnotation r node =
     (case symbolAtNode r node of
        None \<Rightarrow> None
      | Some symbol \<Rightarrow>
          (let comments = getDocumentationComment r symbol in
           if length comments = 0 then None
           else
             (let anyOf =
                    (if getFlags r symbol = SymbolFlags_ConstEnum
                     then (case getDeclarations r symbol of
                             None \<Rightarrow> []
                           | Some [] \<Rightarrow> []
                           | Some (d # _) \<Rightarrow> enum_members r (forEachChild r d) [])
                     else []);
                  markdownDescription' = trim (strip_cr (join '' '' (map part_text comments)));
                  description = trim (collapse_newlines markdownDescription');
                  data =
                    (if markdownDescription r = Some True
                     then [(''description'', JString description),
                           (''markdownDescription'', JString markdownDescription')]
                     else [(''description'', JString description)])
              in if length anyOf > 0
                 then Some (AList.update ''title'' (JString description)
                             (AList.update ''anyOf'' (JArray anyOf) (spread [] (Some data))))
                 else Some data)))"

definition getTypeAnnotation :: "'n reader \<Rightarrow> node \<Rightarrow> 'n Annotations option" where
  "getTypeAnnotation r node =
     (case symbolAtNode r node of
        None \<Rightarrow> None
      | Some symbol \<Rightarrow>
          if getFlags r symbol = SymbolFlags_ConstEnum
          then Some [(''type'', JString ''number'')]
          else
            (let jsDocTags = getJsDocTags r symbol in
             if length jsDocTags = 0 then None
             else (case find (\<lambda>tag. name tag = ''asType'') jsDocTags of
                     None \<Rightarrow> None
                   | Some jsDocTag \<Rightarrow>
                       (let text = join [] (map part_text
                                      (case tag_text jsDocTag of None \<Rightarrow> [] | Some ps \<Rightarrow> ps))
                        in Some [(''type'', JString text)]))))"

text \<open>
  The loop over the \<open>example\<close> tags. The body of the \<open>try\<close> pushes the parsed value; where
  the parse throws, the \<open>catch\<close> does nothing and the loop goes on.
\<close>

fun examples_loop :: "'n reader \<Rightarrow> JSDocTagInfo list \<Rightarrow> 'n json list \<Rightarrow> 'n json list" where
  "examples_loop r [] examples = examples"
| "examples_loop r (example # rest) examples =
     (let text = join [] (map part_text
                    (case tag_text example of None \<Rightarrow> [] | Some ps \<Rightarrow> ps))
      in case json5_parse r text of
           Inr v \<Rightarrow> examples_loop r rest (examples @ [v])
         | Inl e \<Rightarrow> examples_loop r rest examples)"

definition getExampleAnnotation :: "'n reader \<Rightarrow> node \<Rightarrow> 'n Annotations option" where
  "getExampleAnnotation r node =
     (case symbolAtNode r node of
        None \<Rightarrow> None
      | Some symbol \<Rightarrow>
          (let jsDocTags = getJsDocTags r symbol in
           if length jsDocTags = 0 then None
           else
             (let examples =
                    examples_loop r (filter (\<lambda>tag. name tag = ''example'') jsDocTags) []
              in if length examples = 0 then None
                 else Some [(''examples'', JArray examples)])))"

definition getAnnotations :: "'n reader \<Rightarrow> node \<Rightarrow> 'n Annotations option" where
  "getAnnotations r node =
     (let annotations =
            spread (spread (spread (spread [] (getDescriptionAnnotation r node))
                                   (getTypeAnnotation r node))
                           (getExampleAnnotation r node))
                   (super_getAnnotations r node)
      in if length (Object_keys annotations) \<noteq> 0 then Some annotations else None)"

section \<open>The reader with the faults of its calls\<close>

text \<open>
  The same methods with what a call can do besides returning. Every call of the compiler
  interface, of \<open>symbolAtNode\<close> and of the base reader is named; \<open>faults\<close> tells for each
  call whether it throws, and what. A call that throws ends the method with that
  exception, as nothing but the \<open>try\<close> around \<open>json5.parse\<close> catches one. Values have the
  types the code declares for them (\<open>comments: ts.SymbolDisplayPart[]\<close>,
  \<open>jsDocTags: ts.JSDocTagInfo[]\<close>), and the methods of strings and arrays that the code
  calls on them (\<open>map\<close>, \<open>join\<close>, \<open>replace\<close>, \<open>trim\<close>, \<open>split\<close>, \<open>at\<close>, \<open>find\<close>,
  \<open>filter\<close>, \<open>push\<close>) and \<open>Number\<close> return for every such value.
\<close>

datatype call =
    SymbolAtNode node
  | GetDocumentationComment symbol
  | GetJsDocTags symbol
  | GetFlags symbol
  | GetDeclarations symbol
  | ForEachChild node
  | GetText node
  | SuperGetAnnotations node

type_synonym faults = "call \<Rightarrow> exn option"

definition outcome :: "faults \<Rightarrow> call \<Rightarrow> 'a \<Rightarrow> exn + 'a" where
  "outcome f c v = (case f c of Some e \<Rightarrow> Inl e | None \<Rightarrow> Inr v)"

text \<open>\<open>try { body } catch (e) { handler }\<close>.\<close>

definition try_catch :: "exn + 'a \<Rightarrow> (exn \<Rightarrow> exn + 'a) \<Rightarrow> exn + 'a" where
  "try_catch body handler = (case body of Inl e \<Rightarrow> handler e | Inr v \<Rightarrow> Inr v)"

definition isNullable_run :: "'n reader \<Rightarrow> faults \<Rightarrow> node \<Rightarrow> exn + bool" where
  "isNullable_run r f node =
     (case outcome f (SymbolAtNode node) (symbolAtNode r node) of
        Inl e \<Rightarrow> Inl e
      | Inr None \<Rightarrow> Inr False
      | Inr (Some symbol) \<Rightarrow>
          (case outcome f (GetJsDocTags symbol) (getJsDocTags r symbol) of
             Inl e \<Rightarrow> Inl e
           | Inr jsDocTags \<Rightarrow>
               if length jsDocTags = 0 then Inr False
               else Inr (case find (\<lambda>tag. name tag = ''nullable'') jsDocTags of
                           None \<Rightarrow> False
                         | Some jsDocTag \<Rightarrow> True)))"

fun enum_members_run ::
  "'n reader \<Rightarrow> faults \<Rightarrow> node list \<Rightarrow> 'n json list \<Rightarrow> exn + 'n json list" where
  "enum_members_run r f [] anyOf = Inr anyOf"
| "enum_members_run r f (child # rest) anyOf =
     (case outcome f (SymbolAtNode child) (symbolAtNode r child) of
        Inl e \<Rightarrow> Inl e
      | Inr None \<Rightarrow> enum_members_run r f rest anyOf
      | Inr (Some symbol) \<Rightarrow>
          (case outcome f (GetDocumentationComment symbol) (getDocumentationComment r symbol) of
             Inl e \<Rightarrow> Inl e
           | Inr comments \<Rightarrow>
               (case outcome f (GetText child) (getText r child) of
                  Inl e \<Rightarrow> Inl e
                | Inr text \<Rightarrow>
                    enum_members_run r f rest
                      (anyOf @
                       [JObject
                          [(''const'', JNumber (js_Number r (at_last (split ''= '' text)))),
                           (''description'',
                            JString (trim (strip_cr (join '' '' (map part_text comments)))))]]))))"

definition getDescriptionAnnotation_run ::
  "'n reader \<Rightarrow> faults \<Rightarrow> node \<Rightarrow> exn + 'n Annotations option" where
  "getDescriptionAnnotation_run r f node =
     (case outcome f (SymbolAtNode node) (symbolAtNode r node) of
        Inl e \<Rightarrow> Inl e
      | Inr None \<Rightarrow> Inr None
      | Inr (Some symbol) \<Rightarrow>
          (case outcome f (GetDocumentationComment symbol) (getDocumentationComment r symbol) of
             Inl e \<Rightarrow> Inl e
           | Inr comments \<Rightarrow>
               if length comments = 0 then Inr None
               else
                 (case outcome f (GetFlags symbol) (getFlags r symbol) of
                    Inl e \<Rightarrow> Inl e
                  | Inr flags \<Rightarrow>
                      (case (if flags = SymbolFlags_ConstEnum
                             then (case outcome f (GetDeclarations symbol)
                                          (getDeclarations r symbol) of
                                     Inl e \<Rightarrow> Inl e
                                   | Inr None \<Rightarrow> Inr []
                                   | Inr (Some []) \<Rightarrow> Inr []
                                   | Inr (Some (d # _)) \<Rightarrow>
                                       (case outcome f (ForEachChild d) (forEachChild r d) of
                                          Inl e \<Rightarrow> Inl e
                                        | Inr children \<Rightarrow> enum_members_run r f children []))
                             else Inr []) of
                         Inl e \<Rightarrow> Inl e
                       | Inr anyOf \<Rightarrow>
                           (let markdownDescription' =
                                  trim (strip_cr (join '' '' (map part_text comments)));
                                description = trim (collapse_newlines markdownDescription');
                                data =
                                  (if markdownDescription r = Some True
                                   then [(''description'', JString description),
                                         (''markdownDescription'', JString markdownDescription')]
                                   else [(''description'', JString description)])
                            in if length anyOf > 0
                               then Inr (Some (AList.update ''title'' (JString description)
                                           (AList.update ''anyOf'' (JArray anyOf)
                                              (spread [] (Some data)))))
                               else Inr (Some data))))))"

definition getTypeAnnotation_run ::
  "'n reader \<Rightarrow> faults \<Rightarrow> node \<Rightarrow> exn + 'n Annotations option" where
  "getTypeAnnotation_run r f node =
     (case outcome f (SymbolAtNode node) (symbolAtNode r node) of
        Inl e \<Rightarrow> Inl e
      | Inr None \<Rightarrow> Inr None
      | Inr (Some symbol) \<Rightarrow>
          (case outcome f (GetFlags symbol) (getFlags r symbol) of
             Inl e \<Rightarrow> Inl e
           | Inr flags \<Rightarrow>
               if flags = SymbolFlags_ConstEnum
               then Inr (Some [(''type'', JString ''number'')])
               else
                 (case outcome f (GetJsDocTags symbol) (getJsDocTags r symbol) of
                    Inl e \<Rightarrow> Inl e
                  | Inr jsDocTags \<Rightarrow>
                      if length jsDocTags = 0 then Inr None
                      else (case find (\<lambda>tag. name tag = ''asType'') jsDocTags of
                              None \<Rightarrow> Inr None
                            | Some jsDocTag \<Rightarrow>
                                (let text = join [] (map part_text
                                       (case tag_text jsDocTag of None \<Rightarrow> [] | Some ps \<Rightarrow> ps))
                                 in Inr (Some [(''type'', JString text)]))))))"

text \<open>
  The loop over the \<open>example\<close> tags with its \<open>try\<close>: the body throws what \<open>json5.parse\<close>
  throws, the handler is empty and leaves \<open>examples\<close> as it was.
\<close>

fun examples_loop_run ::
  "'n reader \<Rightarrow> JSDocTagInfo list \<Rightarrow> 'n json list \<Rightarrow> exn + 'n json list" where
  "examples_loop_run r [] examples = Inr examples"
| "examples_loop_run r (example # rest) examples =
     (let text = join [] (map part_text
                    (case tag_text example of None \<Rightarrow> [] | Some ps \<Rightarrow> ps))
      in case try_catch
                (case json5_parse r text of
                   Inl e \<Rightarrow> Inl e
                 | Inr v \<Rightarrow> Inr (examples @ [v]))
                (\<lambda>e. Inr examples) of
           Inl e \<Rightarrow> Inl e
         | Inr examples' \<Rightarrow> examples_loop_run r rest examples')"

definition getExampleAnnotation_run ::
  "'n reader \<Rightarrow> faults \<Rightarrow> node \<Rightarrow> exn + 'n Annotations option" where
  "getExampleAnnotation_run r f node =
     (case outcome f (SymbolAtNode node) (symbolAtNode r node) of
        Inl e \<Rightarrow> Inl e
      | Inr None \<Rightarrow> Inr None
      | Inr (Some symbol) \<Rightarrow>
          (case outcome f (GetJsDocTags symbol) (getJsDocTags r symbol) of
             Inl e \<Rightarrow> Inl e
           | Inr jsDocTags \<Rightarrow>
               if length jsDocTags = 0 then Inr None
               else
                 (case examples_loop_run r
                         (filter (\<lambda>tag. name tag = ''example'') jsDocTags) [] of
                    Inl e \<Rightarrow> Inl e
                  | Inr examples \<Rightarrow>
                      if length examples = 0 then Inr None
                      else Inr (Some [(''examples'', JArray examples)]))))"

text \<open>The four spread arguments are evaluated from left to right.\<close>

definition getAnnotations_run ::
  "'n reader \<Rightarrow> faults \<Rightarrow> node \<Rightarrow> exn + 'n Annotations option" where
  "getAnnotations_run r f node =
     (case getDescriptionAnnotation_run r f node of
        Inl e \<Rightarrow> Inl e
      | Inr d \<Rightarrow>
          (case getTypeAnnotation_run r f node of
             Inl e \<Rightarrow> Inl e
           | Inr t \<Rightarrow>
               (case getExampleAnnotation_run r f node of
                  Inl e \<Rightarrow> Inl e
                | Inr ex \<Rightarrow>
                    (case outcome f (SuperGetAnnotations node) (super_getAnnotations r node) of
                       Inl e \<Rightarrow> Inl e
                     | Inr b \<Rightarrow>
                         (let annotations = spread (spread (spread (spread [] d) t) ex) b
                          in Inr (if length (Object_keys annotations) \<noteq> 0
                                  then Some annotations else None))))))"

section \<open>Notions of the specification\<close>

text \<open>What a group contributes to the merge: its fields, none when it is absent.\<close>

definition fields_of :: "'n Annotations option \<Rightarrow> 'n Annotations" where
  "fields_of g = (case g of None \<Rightarrow> [] | Some a \<Rightarrow> a)"

text \<open>The value of a field of a result, \<open>None\<close> when the result or the field is absent.\<close>

definition field :: "'n Annotations option \<Rightarrow> string \<Rightarrow> 'n json option" where
  "field res k = map_of (fields_of res) k"

text \<open>A string that \<open>trim\<close> leaves alone: no whitespace at either end.\<close>

definition trimmed :: "string \<Rightarrow> bool" where
  "trimmed t \<longleftrightarrow> t = [] \<or> (\<not> is_js_whitespace (hd t) \<and> \<not> is_js_whitespace (last t))"

text \<open>
  A line feed at position \<open>i\<close> is a soft break when no other line feed is next to it and
  the character after it is neither \<open>*\<close> nor \<open>-\<close>; soft breaks become spaces.
  \<open>spec_description\<close> is the description in closed form.
\<close>

definition soft_break :: "string \<Rightarrow> nat \<Rightarrow> bool" where
  "soft_break t i \<longleftrightarrow>
     t ! i = LF
     \<and> \<not> (0 < i \<and> t ! (i - 1) = LF)
     \<and> \<not> (i + 1 < length t \<and> t ! (i + 1) = LF)
     \<and> \<not> (i + 1 < length t \<and> (t ! (i + 1) = CHR ''*'' \<or> t ! (i + 1) = CHR ''-''))"

definition spec_collapse :: "string \<Rightarrow> string" where
  "spec_collapse t = map (\<lambda>i. if soft_break t i then CHR '' '' else t ! i) [0..<length t]"

definition spec_description :: "string list \<Rightarrow> string" where
  "spec_description fragments = spec_collapse (trim (strip_cr (join '' '' fragments)))"

text \<open>
  The description in words of its own, with none of the string functions above: the
  fragments, each but the first preceded by one space; no carriage return; without the
  whitespace at both ends, counted and cut off; soft breaks turned into spaces.
\<close>

definition joined_with_spaces :: "string list \<Rightarrow> string" where
  "joined_with_spaces fragments =
     (case fragments of
        [] \<Rightarrow> []
      | first # others \<Rightarrow> first @ concat (map (\<lambda>fragment. CHR '' '' # fragment) others))"

definition without_carriage_returns :: "string \<Rightarrow> string" where
  "without_carriage_returns s = [c \<leftarrow> s. c \<noteq> CHR 0x0D]"

definition whitespace :: "char set" where
  "whitespace = {CHR 0x09, CHR 0x0A, CHR 0x0B, CHR 0x0C, CHR 0x0D, CHR 0x20, CHR 0xA0}"

definition without_outer_whitespace :: "string \<Rightarrow> string" where
  "without_outer_whitespace s =
     (let rest = drop (length (takeWhile (\<lambda>c. c \<in> whitespace) s)) s
      in take (length rest - length (takeWhile (\<lambda>c. c \<in> whitespace) (rev rest))) rest)"

definition worded_description :: "string list \<Rightarrow> string" where
  "worded_description fragments =
     spec_collapse (without_outer_whitespace
       (without_carriage_returns (joined_with_spaces fragments)))"

text \<open>The body of a tag, its fragments joined with no separator.\<close>

definition tag_body :: "JSDocTagInfo \<Rightarrow> string" where
  "tag_body tag = concat (map part_text (case tag_text tag of None \<Rightarrow> [] | Some ps \<Rightarrow> ps))"

text \<open>The value of one example tag, \<open>None\<close> where its body does not parse.\<close>

definition parsed_example :: "'n reader \<Rightarrow> JSDocTagInfo \<Rightarrow> 'n json option" where
  "parsed_example r tag =
     (case json5_parse r (tag_body tag) of Inl e \<Rightarrow> None | Inr v \<Rightarrow> Some v)"

text \<open>The descriptor of one enum member, \<open>None\<close> for a child that resolves to no symbol.\<close>

definition member_descriptor :: "'n reader \<Rightarrow> node \<Rightarrow> 'n json option" where
  "member_descriptor r child =
     (case symbolAtNode r child of
        None \<Rightarrow> None
      | Some symbol \<Rightarrow>
          Some (JObject
            [(''const'', JNumber (js_Number r (at_last (split ''= '' (getText r child))))),
             (''description'',
              JString (trim (strip_cr (join '' ''
                (map part_text (getDocumentationComment r symbol))))))]))"

section \<open>An example program\<close>

text \<open>
  The declarations used to run the reader:
  \<^item> node 0, symbol 10: \<open>/** Kinds of\<newline>block */ const enum E { /** first */ A = 1, /** second */ B = 2 }\<close>,
    with the children 1 (the name, no symbol), 2 and 3 (the members, symbols 12 and 13);
  \<^item> node 4, symbol 14: a property documented \<open>line one\<newline>line two\<close> with the tags
    \<open>@asType CustomType\<close>, \<open>@example 1\<close>, \<open>@example not json\<close>, \<open>@example 2\<close>, \<open>@nullable\<close>;
  \<^item> node 5, symbol 15: a property documented \<open>item one\<newline>- item two\<close>, no tags;
  \<^item> node 6, symbol 16: a property with the tags \<open>@Nullable\<close> and \<open>@asType\<close> (no body);
  \<^item> nodes 7 and 9, symbol 17: a const enum \<open>E2\<close> and the namespace of types that is
    merged with it, tagged \<open>@asType CustomType\<close>; the flags of the symbol are
    \<open>ConstEnum | NamespaceModule\<close>;
  \<^item> node 8, symbol 14 again, where the base reader returns a description of its own;
  \<^item> node 11, symbol 21: a property documented in two fragments, with a carriage return
    and with whitespace at the ends;
  \<^item> node 12, symbol 22: a property documented \<open>Intro\<newline># Heading\<close>;
  \<^item> node 13, symbol 23: a property with the tags \<open>@asType Foo\<close> and \<open>@asType\<close> (no body);
  \<^item> node 14, symbol 24: the const enum of node 0 again, tagged \<open>@title My title\<close>, which
    the base reader returns as \<open>title\<close>;
  \<^item> any other node resolves to no symbol.
  Numbers are integers here; \<open>json5_parse\<close> accepts \<open>1\<close> and \<open>2\<close> only.
\<close>

definition plain :: "string \<Rightarrow> SymbolDisplayPart" where
  "plain s = \<lparr>part_text = s, kind = ''text''\<rparr>"

definition example_program :: "int reader" where
  "example_program =
     \<lparr>markdownDescription = None,
      symbolAtNode = (\<lambda>n. if n = 0 then Some 10 else if n = 2 then Some 12
                           else if n = 3 then Some 13 else if n = 4 then Some 14
                           else if n = 5 then Some 15 else if n = 6 then Some 16
                           else if n = 7 \<or> n = 9 then Some 17
                           else if n = 8 then Some 14 else if n = 11 then Some 21
                           else if n = 12 then Some 22 else if n = 13 then Some 23
                           else if n = 14 then Some 24 else None),
      getDocumentationComment =
        (\<lambda>s. if s = 10 then [plain ''Kinds of\<newline>block'']
             else if s = 12 then [plain ''first'']
             else if s = 13 then [plain ''second'']
             else if s = 14 then [plain ''line one\<newline>line two'']
             else if s = 15 then [plain ''item one\<newline>- item two'']
             else if s = 17 then [plain ''E2'']
             else if s = 21 then [plain (''  a'' @ [CHR 0x0D] @ ''\<newline>b ''),
                                  plain ''c\<newline>- d  '']
             else if s = 22 then [plain ''Intro\<newline># Heading'']
             else if s = 24 then [plain ''Kinds of\<newline>block'']
             else []),
      getJsDocTags =
        (\<lambda>s. if s = 14 then
               [\<lparr>name = ''asType'', tag_text = Some [plain ''CustomType'']\<rparr>,
                \<lparr>name = ''example'', tag_text = Some [plain ''1'']\<rparr>,
                \<lparr>name = ''example'', tag_text = Some [plain ''not json'']\<rparr>,
                \<lparr>name = ''example'', tag_text = Some [plain ''2'']\<rparr>,
                \<lparr>name = ''nullable'', tag_text = None\<rparr>]
             else if s = 16 then
               [\<lparr>name = ''Nullable'', tag_text = None\<rparr>,
                \<lparr>name = ''asType'', tag_text = None\<rparr>]
             else if s = 17 then
               [\<lparr>name = ''asType'', tag_text = Some [plain ''CustomType'']\<rparr>]
             else if s = 23 then
               [\<lparr>name = ''asType'', tag_text = Some [plain ''Foo'']\<rparr>,
                \<lparr>name = ''asType'', tag_text = None\<rparr>]
             else if s = 24 then
               [\<lparr>name = ''title'', tag_text = Some [plain ''My title'']\<rparr>]
             else []),
      getFlags = (\<lambda>s. if s = 10 \<or> s = 24 then 128 else if s = 17 then 1152
                       else if s = 12 \<or> s = 13 then 8 else 4),
      getDeclarations = (\<lambda>s. if s = 10 then Some [0] else if s = 17 then Some [7, 9]
                              else if s = 24 then Some [14] else Some []),
      forEachChild = (\<lambda>n. if n = 0 \<or> n = 14 then [1, 2, 3] else []),
      getText = (\<lambda>n. if n = 2 then ''A = 1'' else if n = 3 then ''B = 2'' else []),
      json5_parse = (\<lambda>s. if s = ''1'' then Inr (JNumber 1)
                          else if s = ''2'' then Inr (JNumber 2)
                          else Inl (SyntaxError s)),
      js_Number = (\<lambda>v. if v = Some ''1'' then 1 else if v = Some ''2'' then 2 else 0),
      super_getAnnotations =
        (\<lambda>n. if n = 8 then Some [(''description'', JString ''from the base reader''),
                                  (''deprecated'', JBool True)]
             else if n = 14 then Some [(''title'', JString ''My title'')]
             else None)\<rparr>"

text \<open>The same program read with the markdown description switched on.\<close>

definition example_program_md :: "int reader" where
  "example_program_md = example_program\<lparr>markdownDescription := Some True\<rparr>"

text \<open>No call throws; \<open>getText\<close> throws on the member \<open>A\<close>.\<close>

definition no_faults :: faults where
  "no_faults = (\<lambda>c. None)"

definition getText_throws :: faults where
  "getText_throws = (\<lambda>c. if c = GetText 2 then Some (Thrown ''getText'') else None)"

section \<open>Strings\<close>

lemma join_nil: "join [] xs = concat xs"
  by (induction "[] :: string" xs rule: join.induct) simp_all

lemma trimStart_idem: "s \<noteq> [] \<Longrightarrow> \<not> is_js_whitespace (hd s) \<Longrightarrow> trimStart s = s"
  by (simp add: trimStart_def dropWhile_eq_self_iff)

lemma trimEnd_idem: "s \<noteq> [] \<Longrightarrow> \<not> is_js_whitespace (last s) \<Longrightarrow> trimEnd s = s"
proof -
  assume "s \<noteq> []" and "\<not> is_js_whitespace (last s)"
  then have "\<not> is_js_whitespace (hd (rev s))" by (simp add: hd_rev)
  then have "dropWhile is_js_whitespace (rev s) = rev s"
    by (simp add: dropWhile_eq_self_iff)
  then show ?thesis by (simp add: trimEnd_def)
qed

lemma trim_trimmed_id: "trimmed t \<Longrightarrow> trim t = t"
proof (cases "t = []")
  case True
  then show ?thesis by (simp add: trim_def trimStart_def trimEnd_def)
next
  case False
  assume "trimmed t"
  with False show ?thesis
    by (simp add: trimmed_def trim_def trimStart_idem trimEnd_idem)
qed

lemma hd_dropWhile_rev:
  assumes "rev (dropWhile P (rev s)) \<noteq> []"
  shows "hd (rev (dropWhile P (rev s))) = hd s"
proof -
  have "rev s = takeWhile P (rev s) @ dropWhile P (rev s)" by simp
  then have s: "s = rev (dropWhile P (rev s)) @ rev (takeWhile P (rev s))"
    by (metis rev_append rev_rev_ident)
  show ?thesis using assms by (subst (2) s) simp
qed

lemma trimmed_trim: "trimmed (trim s)"
proof (cases "trim s = []")
  case True
  then show ?thesis by (simp add: trimmed_def)
next
  case False
  let ?a = "trimStart s"
  from False have ne: "?a \<noteq> []" by (auto simp: trim_def trimEnd_def)
  then have h: "\<not> is_js_whitespace (hd ?a)"
    unfolding trimStart_def by (rule hd_dropWhile)
  have "hd (trim s) = hd ?a"
    using False unfolding trim_def trimEnd_def by (rule hd_dropWhile_rev)
  moreover have "\<not> is_js_whitespace (last (trim s))"
    using False unfolding trim_def trimEnd_def
    by (simp add: last_rev hd_dropWhile)
  ultimately show ?thesis using h by (simp add: trimmed_def)
qed

lemma length_collapse_from: "length (collapse_from p s) = length s"
  by (induction s arbitrary: p) simp_all

lemma collapse_from_nth:
  "i < length s \<Longrightarrow>
   collapse_from p s ! i =
     (if s ! i = LF
         \<and> (if i = 0 then (case p of None \<Rightarrow> False | Some q \<Rightarrow> q \<noteq> LF) else s ! (i - 1) \<noteq> LF)
         \<and> i + 1 < length s
         \<and> s ! (i + 1) \<noteq> LF \<and> s ! (i + 1) \<noteq> CHR ''*'' \<and> s ! (i + 1) \<noteq> CHR ''-''
      then CHR '' '' else s ! i)"
proof (induction s arbitrary: p i)
  case Nil
  then show ?case by simp
next
  case (Cons c cs)
  show ?case
  proof (cases i)
    case 0
    then show ?thesis by (cases cs) (auto split: option.splits)
  next
    case (Suc j)
    with Cons.prems have j: "j < length cs" by simp
    show ?thesis
      using Cons.IH [OF j, of "Some c"] Suc
      by (cases j) (auto simp: nth_Cons')
  qed
qed

lemma LF_whitespace: "is_js_whitespace LF"
  by (simp add: is_js_whitespace_def LF_def)

text \<open>In a trimmed string every line feed has a neighbour on both sides.\<close>

lemma trimmed_LF_inside:
  assumes "trimmed t" and "i < length t" and "t ! i = LF"
  shows "0 < i \<and> i + 1 < length t"
proof -
  from assms(2) have ne: "t \<noteq> []" by auto
  with assms(1) have h: "\<not> is_js_whitespace (t ! 0)" and l: "\<not> is_js_whitespace (t ! (length t - 1))"
    by (simp_all add: trimmed_def hd_conv_nth last_conv_nth)
  have "i \<noteq> 0" using h assms(3) LF_whitespace by (metis)
  moreover have "i \<noteq> length t - 1" using l assms(3) LF_whitespace by (metis)
  ultimately show ?thesis using assms(2) by arith
qed

lemma collapse_newlines_spec:
  assumes "trimmed t"
  shows "collapse_newlines t = spec_collapse t"
proof (rule nth_equalityI)
  show "length (collapse_newlines t) = length (spec_collapse t)"
    by (simp add: collapse_newlines_def spec_collapse_def length_collapse_from)
next
  fix i assume "i < length (collapse_newlines t)"
  then have i: "i < length t"
    by (simp add: collapse_newlines_def length_collapse_from)
  show "collapse_newlines t ! i = spec_collapse t ! i"
  proof (cases "t ! i = LF")
    case True
    from trimmed_LF_inside [OF assms i True] have "0 < i" "i + 1 < length t" by simp_all
    then show ?thesis
      using i True
      by (simp add: collapse_newlines_def collapse_from_nth spec_collapse_def soft_break_def)
  next
    case False
    then show ?thesis
      using i
      by (simp add: collapse_newlines_def collapse_from_nth spec_collapse_def soft_break_def)
  qed
qed

lemma trimmed_collapse_newlines:
  assumes "trimmed t"
  shows "trimmed (collapse_newlines t)"
proof (cases "t = []")
  case True
  then show ?thesis by (simp add: trimmed_def collapse_newlines_def)
next
  case False
  let ?c = "collapse_newlines t"
  have len: "length ?c = length t"
    by (simp add: collapse_newlines_def length_collapse_from)
  with False have ne: "?c \<noteq> []" by auto
  from False have pos: "0 < length t" by simp
  have "?c ! 0 = t ! 0"
    using pos by (simp add: collapse_newlines_def collapse_from_nth)
  moreover have "?c ! (length t - 1) = t ! (length t - 1)"
    using pos by (simp add: collapse_newlines_def collapse_from_nth)
  ultimately have "hd ?c = hd t" and "last ?c = last t"
    using False ne len by (simp_all add: hd_conv_nth last_conv_nth)
  with assms False ne show ?thesis by (simp add: trimmed_def)
qed

text \<open>The second \<open>trim\<close> of the description changes nothing.\<close>

lemma description_pipeline:
  "trim (collapse_newlines (trim (strip_cr (join '' '' fragments)))) = spec_description fragments"
proof -
  let ?t = "trim (strip_cr (join '' '' fragments))"
  have t: "trimmed ?t" by (rule trimmed_trim)
  then have "trim (collapse_newlines ?t) = collapse_newlines ?t"
    by (intro trim_trimmed_id trimmed_collapse_newlines)
  also have "\<dots> = spec_collapse ?t" using t by (rule collapse_newlines_spec)
  finally show ?thesis by (simp add: spec_description_def)
qed

section \<open>Objects\<close>

lemma map_of_fold_update:
  "map_of (fold (\<lambda>k acc. case map_of src k of None \<Rightarrow> acc | Some v \<Rightarrow> AList.update k v acc) ks t) k
     = (if k \<in> set ks \<and> map_of src k \<noteq> None then map_of src k else map_of t k)"
proof (induction ks arbitrary: t)
  case Nil
  show ?case by simp
next
  case (Cons a ks)
  show ?case
    by (cases "map_of src a") (auto simp: Cons.IH update_conv')
qed

lemma map_of_spread: "map_of (spread t s) = map_of t ++ map_of (fields_of s)"
proof (cases s)
  case None
  then show ?thesis by (simp add: spread_def fields_of_def)
next
  case (Some src)
  have "map_of (spread t s) k = (map_of t ++ map_of src) k" for k
  proof (cases "map_of src k")
    case None
    then show ?thesis
      by (simp add: Some spread_def map_of_fold_update map_add_def)
  next
    case (Some v)
    then have "k \<in> set (Object_keys src)"
      by (metis Object_keys_def map_of_eq_None_iff option.distinct(1) set_map)
    with Some show ?thesis
      by (simp add: \<open>s = Some src\<close> spread_def map_of_fold_update map_add_def)
  qed
  then show ?thesis by (auto simp: Some fields_of_def)
qed

lemma map_of_Nil_iff: "map_of xs = Map.empty \<longleftrightarrow> xs = []"
  by (cases xs) (auto simp: fun_eq_iff)

lemma spread_Nil_iff: "spread t s = [] \<longleftrightarrow> t = [] \<and> fields_of s = []"
proof -
  have "spread t s = [] \<longleftrightarrow> map_of (spread t s) = Map.empty"
    by (simp add: map_of_Nil_iff)
  also have "\<dots> \<longleftrightarrow> map_of t = Map.empty \<and> map_of (fields_of s) = Map.empty"
    by (simp add: map_of_spread)
  finally show ?thesis by (simp add: map_of_Nil_iff)
qed

text \<open>The merged record before the test for emptiness.\<close>

lemma getAnnotations_cases:
  "getAnnotations r node =
     (let a = spread (spread (spread (spread [] (getDescriptionAnnotation r node))
                                     (getTypeAnnotation r node))
                             (getExampleAnnotation r node))
                     (super_getAnnotations r node)
      in if a = [] then None else Some a)"
  by (simp add: getAnnotations_def Object_keys_def Let_def)

lemma field_getAnnotations:
  "field (getAnnotations r node) =
     map_of (fields_of (getDescriptionAnnotation r node))
       ++ map_of (fields_of (getTypeAnnotation r node))
       ++ map_of (fields_of (getExampleAnnotation r node))
       ++ map_of (fields_of (super_getAnnotations r node))"
proof -
  let ?a = "spread (spread (spread (spread [] (getDescriptionAnnotation r node))
                                   (getTypeAnnotation r node))
                           (getExampleAnnotation r node))
                   (super_getAnnotations r node)"
  have "field (getAnnotations r node) = map_of ?a"
    by (auto simp: getAnnotations_cases field_def fields_of_def Let_def fun_eq_iff)
  then show ?thesis by (simp add: map_of_spread)
qed

section \<open>The loops\<close>

lemma enum_members_eq:
  "enum_members r children anyOf = anyOf @ List.map_filter (member_descriptor r) children"
proof (induction children arbitrary: anyOf)
  case Nil
  show ?case by (simp add: List.map_filter_simps)
next
  case (Cons c cs)
  show ?case
    by (cases "symbolAtNode r c")
       (simp_all add: Cons.IH List.map_filter_simps member_descriptor_def Let_def)
qed

lemma examples_loop_eq:
  "examples_loop r tags examples = examples @ List.map_filter (parsed_example r) tags"
proof (induction tags arbitrary: examples)
  case Nil
  show ?case by (simp add: List.map_filter_simps)
next
  case (Cons t ts)
  show ?case
    by (cases "json5_parse r (tag_body t)")
       (simp_all add: Cons.IH List.map_filter_simps parsed_example_def tag_body_def join_nil Let_def)
qed

section \<open>What each group can contribute\<close>

lemma type_group_keys:
  "k \<noteq> ''type'' \<Longrightarrow> map_of (fields_of (getTypeAnnotation r node)) k = None"
  by (auto simp: getTypeAnnotation_def fields_of_def Let_def split: option.splits)

lemma example_group_keys:
  "k \<noteq> ''examples'' \<Longrightarrow> map_of (fields_of (getExampleAnnotation r node)) k = None"
  by (auto simp: getExampleAnnotation_def fields_of_def Let_def split: option.splits)

lemma spread_literal:
  "spread [] (Some [(k, v)]) = [(k, v)]"
  "k \<noteq> k' \<Longrightarrow> spread [] (Some [(k, v), (k', v')]) = [(k, v), (k', v')]"
  by (simp_all add: spread_def Object_keys_def)

text \<open>The description group in closed form, the loop over the members replaced by a filter.\<close>

lemma getDescriptionAnnotation_eq:
  assumes "symbolAtNode r node = Some s" and "getDocumentationComment r s \<noteq> []"
  shows "getDescriptionAnnotation r node =
     Some (let fragments = map part_text (getDocumentationComment r s);
               data = (if markdownDescription r = Some True
                       then [(''description'', JString (spec_description fragments)),
                             (''markdownDescription'',
                              JString (trim (strip_cr (join '' '' fragments))))]
                       else [(''description'', JString (spec_description fragments))]);
               anyOf = (if getFlags r s = SymbolFlags_ConstEnum
                        then (case getDeclarations r s of
                                None \<Rightarrow> []
                              | Some [] \<Rightarrow> []
                              | Some (d # _) \<Rightarrow>
                                  List.map_filter (member_descriptor r) (forEachChild r d))
                        else [])
           in if anyOf = [] then data
              else data @ [(''anyOf'', JArray anyOf),
                           (''title'', JString (spec_description fragments))])"
  using assms
  by (auto simp: getDescriptionAnnotation_def Let_def description_pipeline enum_members_eq
        spread_literal split: option.splits list.splits)

lemma description_group_description:
  assumes "symbolAtNode r node = Some s" and "getDocumentationComment r s \<noteq> []"
  shows "map_of (fields_of (getDescriptionAnnotation r node)) ''description'' =
           Some (JString (spec_description (map part_text (getDocumentationComment r s))))"
  by (simp add: getDescriptionAnnotation_eq [OF assms] fields_of_def Let_def)

lemma member_descriptors_filter:
  "List.map_filter (member_descriptor r) children =
   List.map_filter (member_descriptor r) (filter (\<lambda>c. symbolAtNode r c \<noteq> None) children)"
  by (induction children)
     (auto simp: List.map_filter_simps member_descriptor_def split: option.splits)

lemmas run_defs =
  example_program_def example_program_md_def plain_def
  getAnnotations_def getDescriptionAnnotation_def getTypeAnnotation_def
  getExampleAnnotation_def isNullable_def
  spread_def Object_keys_def fields_of_def field_def Let_def
  SymbolFlags_ConstEnum_def SymbolFlags_NamespaceModule_def flag_set_def
  trim_def trimStart_def trimEnd_def is_js_whitespace_def strip_cr_def CR_def LF_def
  collapse_newlines_def split_def at_last_def tag_body_def

section \<open>The description in words\<close>

lemma joined_with_spaces_eq: "join '' '' fragments = joined_with_spaces fragments"
  by (induction "'' ''" fragments rule: join.induct) (simp_all add: joined_with_spaces_def)

lemma without_carriage_returns_eq: "strip_cr s = without_carriage_returns s"
  by (simp add: strip_cr_def without_carriage_returns_def CR_def)

lemma whitespace_eq: "is_js_whitespace = (\<lambda>c. c \<in> whitespace)"
  by (rule ext) (simp add: is_js_whitespace_def whitespace_def)

lemma rev_dropWhile_rev:
  "rev (dropWhile P (rev t)) = take (length t - length (takeWhile P (rev t))) t"
proof -
  have "rev (dropWhile P (rev t)) = rev (drop (length (takeWhile P (rev t))) (rev t))"
    by (simp only: dropWhile_eq_drop)
  also have "\<dots> = take (length t - length (takeWhile P (rev t))) t"
    by (simp add: rev_drop)
  finally show ?thesis .
qed

lemma without_outer_whitespace_eq: "trim s = without_outer_whitespace s"
proof -
  have "trim s = rev (dropWhile (\<lambda>c. c \<in> whitespace) (rev (dropWhile (\<lambda>c. c \<in> whitespace) s)))"
    by (simp add: trim_def trimStart_def trimEnd_def whitespace_eq)
  also have "\<dots> = without_outer_whitespace s"
    unfolding rev_dropWhile_rev without_outer_whitespace_def Let_def
    by (simp only: dropWhile_eq_drop)
  finally show ?thesis .
qed

lemma worded_description_eq: "worded_description fragments = spec_description fragments"
  by (simp add: worded_description_def spec_description_def joined_with_spaces_eq
        without_carriage_returns_eq without_outer_whitespace_eq)

section \<open>Faults\<close>

lemma outcome_returns: "\<forall>c. f c = None \<Longrightarrow> outcome f c v = Inr v"
  by (simp add: outcome_def)

lemma outcome_throws: "outcome f c v = Inl e \<Longrightarrow> f c = Some e"
  by (simp add: outcome_def split: option.splits)

text \<open>The loop over the examples returns whatever the parser does.\<close>

lemma examples_loop_run_eq:
  "examples_loop_run r tags examples = Inr (examples_loop r tags examples)"
proof (induction tags arbitrary: examples)
  case Nil
  show ?case by simp
next
  case (Cons t ts)
  show ?case
    by (cases "json5_parse r (join [] (map part_text
                 (case tag_text t of None \<Rightarrow> [] | Some ps \<Rightarrow> ps)))")
       (simp_all add: Cons.IH try_catch_def Let_def)
qed

lemma enum_members_run_eq:
  assumes "\<forall>c. f c = None"
  shows "enum_members_run r f children anyOf = Inr (enum_members r children anyOf)"
proof (induction children arbitrary: anyOf)
  case Nil
  show ?case by simp
next
  case (Cons c cs)
  show ?case
    by (cases "symbolAtNode r c") (simp_all add: Cons.IH outcome_returns [OF assms] Let_def)
qed

lemma enum_members_run_throws:
  "enum_members_run r f children anyOf = Inl e \<Longrightarrow> \<exists>c. f c = Some e"
proof (induction children arbitrary: anyOf)
  case Nil
  then show ?case by simp
next
  case (Cons c cs)
  then show ?case
    by (auto split: sum.splits option.splits dest: outcome_throws)
qed

lemma getDescriptionAnnotation_run_eq:
  assumes "\<forall>c. f c = None"
  shows "getDescriptionAnnotation_run r f node = Inr (getDescriptionAnnotation r node)"
  by (simp add: getDescriptionAnnotation_run_def getDescriptionAnnotation_def
        outcome_returns [OF assms] enum_members_run_eq [OF assms] Let_def
        split: option.splits list.splits)

lemma getTypeAnnotation_run_eq:
  assumes "\<forall>c. f c = None"
  shows "getTypeAnnotation_run r f node = Inr (getTypeAnnotation r node)"
  by (simp add: getTypeAnnotation_run_def getTypeAnnotation_def outcome_returns [OF assms] Let_def
        split: option.splits)

lemma getExampleAnnotation_run_eq:
  assumes "\<forall>c. f c = None"
  shows "getExampleAnnotation_run r f node = Inr (getExampleAnnotation r node)"
  by (simp add: getExampleAnnotation_run_def getExampleAnnotation_def outcome_returns [OF assms]
        examples_loop_run_eq Let_def split: option.splits)

lemma getAnnotations_run_eq:
  assumes "\<forall>c. f c = None"
  shows "getAnnotations_run r f node = Inr (getAnnotations r node)"
  by (simp add: getAnnotations_run_def getAnnotations_def outcome_returns [OF assms]
        getDescriptionAnnotation_run_eq [OF assms] getTypeAnnotation_run_eq [OF assms]
        getExampleAnnotation_run_eq [OF assms] Let_def)

lemma isNullable_run_eq:
  assumes "\<forall>c. f c = None"
  shows "isNullable_run r f node = Inr (isNullable r node)"
  by (simp add: isNullable_run_def isNullable_def outcome_returns [OF assms] Let_def
        split: option.splits)

lemma getDescriptionAnnotation_run_throws:
  "getDescriptionAnnotation_run r f node = Inl e \<Longrightarrow> \<exists>c. f c = Some e"
  by (auto simp: getDescriptionAnnotation_run_def Let_def
        split: sum.splits option.splits list.splits if_splits
        dest: outcome_throws enum_members_run_throws)

lemma getTypeAnnotation_run_throws:
  "getTypeAnnotation_run r f node = Inl e \<Longrightarrow> \<exists>c. f c = Some e"
  by (auto simp: getTypeAnnotation_run_def Let_def
        split: sum.splits option.splits if_splits dest: outcome_throws)

lemma getExampleAnnotation_run_throws:
  "getExampleAnnotation_run r f node = Inl e \<Longrightarrow> \<exists>c. f c = Some e"
  by (auto simp: getExampleAnnotation_run_def examples_loop_run_eq Let_def
        split: sum.splits option.splits if_splits dest: outcome_throws)

lemma getAnnotations_run_throws:
  "getAnnotations_run r f node = Inl e \<Longrightarrow> \<exists>c. f c = Some e"
  by (auto simp: getAnnotations_run_def Let_def split: sum.splits
        dest: outcome_throws getDescriptionAnnotation_run_throws
          getTypeAnnotation_run_throws getExampleAnnotation_run_throws)

lemma isNullable_run_throws:
  "isNullable_run r f node = Inl e \<Longrightarrow> \<exists>c. f c = Some e"
  by (auto simp: isNullable_run_def Let_def
        split: sum.splits option.splits if_splits dest: outcome_throws)

lemmas fault_defs =
  getAnnotations_run_def getDescriptionAnnotation_run_def getTypeAnnotation_run_def
  getExampleAnnotation_run_def isNullable_run_def outcome_def try_catch_def
  no_faults_def getText_throws_def

section \<open>The claims\<close>

text \<open>
  C1. For every node the result of \<open>getAnnotations\<close> is the merge of the description
  group, the type group, the example group and the base reader's result, in that order:
  a field of the result has the value of the last of the four that defines it, so the
  base reader overrides the three groups of this reader.
\<close>

theorem getAnnotations_merge_order:
  "field (getAnnotations r node) k =
     (case map_of (fields_of (super_getAnnotations r node)) k of
        Some v \<Rightarrow> Some v
      | None \<Rightarrow>
          (case map_of (fields_of (getExampleAnnotation r node)) k of
             Some v \<Rightarrow> Some v
           | None \<Rightarrow>
               (case map_of (fields_of (getTypeAnnotation r node)) k of
                  Some v \<Rightarrow> Some v
                | None \<Rightarrow> map_of (fields_of (getDescriptionAnnotation r node)) k)))"
  by (simp add: field_getAnnotations map_add_def split: option.splits)

theorem getAnnotations_merge_order_witness:
  "map_of (fields_of (getDescriptionAnnotation example_program 8)) ''description''
     = Some (JString ''line one line two'')
   \<and> map_of (fields_of (super_getAnnotations example_program 8)) ''description''
     = Some (JString ''from the base reader'')
   \<and> field (getAnnotations example_program 8) ''description''
     = Some (JString ''from the base reader'')
   \<and> field (getAnnotations example_program 8) ''type'' = Some (JString ''CustomType'')"
  using getAnnotations_merge_order [of example_program 8 "''description''"]
    getAnnotations_merge_order [of example_program 8 "''type''"]
  by (simp add: run_defs join_nil)

text \<open>
  C2. \<open>getAnnotations\<close> returns absent exactly when none of the four groups yields a
  field, and never an empty record; for a node that resolves to no symbol, with a base
  reader that contributes nothing, it returns absent.
\<close>

theorem getAnnotations_absent_iff:
  "(getAnnotations r node = None \<longleftrightarrow>
      fields_of (getDescriptionAnnotation r node) = []
      \<and> fields_of (getTypeAnnotation r node) = []
      \<and> fields_of (getExampleAnnotation r node) = []
      \<and> fields_of (super_getAnnotations r node) = [])
   \<and> getAnnotations r node \<noteq> Some []
   \<and> (symbolAtNode r node = None \<and> fields_of (super_getAnnotations r node) = []
        \<longrightarrow> getAnnotations r node = None)"
proof -
  have iff: "getAnnotations r node = None \<longleftrightarrow>
      fields_of (getDescriptionAnnotation r node) = []
      \<and> fields_of (getTypeAnnotation r node) = []
      \<and> fields_of (getExampleAnnotation r node) = []
      \<and> fields_of (super_getAnnotations r node) = []"
    by (simp add: getAnnotations_cases Let_def spread_Nil_iff)
  have nonempty: "getAnnotations r node \<noteq> Some []"
    by (simp add: getAnnotations_cases Let_def)
  have "getAnnotations r node = None"
    if "symbolAtNode r node = None" and "fields_of (super_getAnnotations r node) = []"
    using that
    by (simp add: iff getDescriptionAnnotation_def getTypeAnnotation_def
          getExampleAnnotation_def fields_of_def)
  with iff nonempty show ?thesis by blast
qed

theorem getAnnotations_absent_iff_witness:
  "symbolAtNode example_program 10 = None
   \<and> getAnnotations example_program 10 = None
   \<and> getAnnotations example_program 6 \<noteq> None"
  using getAnnotations_absent_iff [of example_program 10]
    getAnnotations_absent_iff [of example_program 6]
  by (simp add: run_defs join_nil)

text \<open>
  C7. \<open>isNullable\<close> is true exactly when the node resolves to a symbol that carries a tag
  whose name is \<open>nullable\<close>, compared as it is written; with no symbol or no tags it is false.
\<close>

theorem isNullable_iff:
  "(isNullable r node \<longleftrightarrow>
      (\<exists>s. symbolAtNode r node = Some s
           \<and> (\<exists>tag \<in> set (getJsDocTags r s). name tag = ''nullable'')))
   \<and> (symbolAtNode r node = None \<longrightarrow> \<not> isNullable r node)
   \<and> (\<forall>s. symbolAtNode r node = Some s \<and> getJsDocTags r s = [] \<longrightarrow> \<not> isNullable r node)"
  by (auto simp: isNullable_def Let_def find_None_iff find_Some_iff split: option.splits)

theorem isNullable_iff_witness:
  "isNullable example_program 4
   \<and> \<not> isNullable example_program 6
   \<and> \<not> isNullable example_program 5
   \<and> \<not> isNullable example_program 10"
  using isNullable_iff [of example_program 4] isNullable_iff [of example_program 6]
    isNullable_iff [of example_program 5] isNullable_iff [of example_program 10]
  by (simp add: example_program_def)

text \<open>
  C3, as the code has it. A const enum declaration on its own (the flags of its symbol
  are \<open>ConstEnum\<close> and nothing else; what a symbol with further flags gets is not stated
  here) with a documentation comment, whose first declaration has the members \<open>A = 1\<close>,
  documented "first", and \<open>B = 2\<close>, documented "second", as its only children that
  resolve to a symbol, and a base reader that sets none of \<open>type\<close>, \<open>anyOf\<close> and
  \<open>title\<close>: \<open>type\<close> is "number", \<open>anyOf\<close> lists the two members in member order, each
  with the description of the member and as \<open>const\<close> the number that the host converts
  the last segment of the member's text after \<open>"= "\<close> to, and \<open>title\<close> is the collapsed
  description of the enum itself.
\<close>

theorem enum_annotations:
  assumes "symbolAtNode r node = Some e"
    and "getFlags r e = SymbolFlags_ConstEnum"
    and "getDocumentationComment r e \<noteq> []"
    and "getDeclarations r e = Some (decl # decls)"
    and "filter (\<lambda>c. symbolAtNode r c \<noteq> None) (forEachChild r decl) = [a, b]"
    and "symbolAtNode r a = Some sa" and "getText r a = ''A = 1''"
    and "map part_text (getDocumentationComment r sa) = [''first'']"
    and "symbolAtNode r b = Some sb" and "getText r b = ''B = 2''"
    and "map part_text (getDocumentationComment r sb) = [''second'']"
    and "\<forall>k \<in> {''type'', ''anyOf'', ''title''}.
           map_of (fields_of (super_getAnnotations r node)) k = None"
  shows "field (getAnnotations r node) ''type'' = Some (JString ''number'')
    \<and> field (getAnnotations r node) ''anyOf'' =
        Some (JArray
          [JObject [(''const'', JNumber (js_Number r (Some ''1''))),
                    (''description'', JString ''first'')],
           JObject [(''const'', JNumber (js_Number r (Some ''2''))),
                    (''description'', JString ''second'')]])
    \<and> field (getAnnotations r node) ''title'' =
        Some (JString (spec_description (map part_text (getDocumentationComment r e))))
    \<and> map_of (fields_of (getDescriptionAnnotation r node)) ''description'' =
        Some (JString (spec_description (map part_text (getDocumentationComment r e))))
    \<and> at_last (split ''= '' ''A = 1'') = Some ''1''
    \<and> at_last (split ''= '' ''B = 2'') = Some ''2''"
proof -
  have seg: "at_last (split ''= '' ''A = 1'') = Some ''1''"
    "at_last (split ''= '' ''B = 2'') = Some ''2''"
    by (simp_all add: split_def at_last_def)
  have "List.map_filter (member_descriptor r) (forEachChild r decl) =
        List.map_filter (member_descriptor r) [a, b]"
    using assms(5) member_descriptors_filter [of r "forEachChild r decl"] by simp
  also have "\<dots> =
       [JObject [(''const'', JNumber (js_Number r (Some ''1''))),
                 (''description'', JString ''first'')],
        JObject [(''const'', JNumber (js_Number r (Some ''2''))),
                 (''description'', JString ''second'')]]"
    using assms(6-11) seg
    by (simp add: List.map_filter_simps member_descriptor_def trim_def trimStart_def
          trimEnd_def is_js_whitespace_def strip_cr_def CR_def)
  finally have members: "List.map_filter (member_descriptor r) (forEachChild r decl) =
       [JObject [(''const'', JNumber (js_Number r (Some ''1''))),
                 (''description'', JString ''first'')],
        JObject [(''const'', JNumber (js_Number r (Some ''2''))),
                 (''description'', JString ''second'')]]" .
  let ?D = "spec_description (map part_text (getDocumentationComment r e))"
  have d: "map_of (fields_of (getDescriptionAnnotation r node)) ''anyOf'' =
             Some (JArray
               [JObject [(''const'', JNumber (js_Number r (Some ''1''))),
                         (''description'', JString ''first'')],
                JObject [(''const'', JNumber (js_Number r (Some ''2''))),
                         (''description'', JString ''second'')]])"
    "map_of (fields_of (getDescriptionAnnotation r node)) ''title'' = Some (JString ?D)"
    using assms(2,4) members
    by (simp_all add: getDescriptionAnnotation_eq [OF assms(1,3)] fields_of_def Let_def)
  have t: "map_of (fields_of (getTypeAnnotation r node)) ''type'' = Some (JString ''number'')"
    using assms(1,2) by (simp add: getTypeAnnotation_def fields_of_def)
  have base: "map_of (fields_of (super_getAnnotations r node)) ''type'' = None"
    "map_of (fields_of (super_getAnnotations r node)) ''anyOf'' = None"
    "map_of (fields_of (super_getAnnotations r node)) ''title'' = None"
    using assms(12) by simp_all
  have "field (getAnnotations r node) ''type'' = Some (JString ''number'')"
    by (simp add: field_getAnnotations map_add_def base t example_group_keys)
  moreover have "field (getAnnotations r node) ''anyOf'' =
        Some (JArray
          [JObject [(''const'', JNumber (js_Number r (Some ''1''))),
                    (''description'', JString ''first'')],
           JObject [(''const'', JNumber (js_Number r (Some ''2''))),
                    (''description'', JString ''second'')]])"
    by (simp add: field_getAnnotations map_add_def base d example_group_keys type_group_keys)
  moreover have "field (getAnnotations r node) ''title'' = Some (JString ?D)"
    by (simp add: field_getAnnotations map_add_def base d example_group_keys type_group_keys)
  ultimately show ?thesis
    using description_group_description [OF assms(1,3)] seg by simp
qed

theorem enum_annotations_witness:
  "getAnnotations example_program 0 =
     Some [(''description'', JString ''Kinds of block''),
           (''anyOf'', JArray [JObject [(''const'', JNumber 1), (''description'', JString ''first'')],
                               JObject [(''const'', JNumber 2), (''description'', JString ''second'')]]),
           (''title'', JString ''Kinds of block''),
           (''type'', JString ''number'')]
   \<and> field (getAnnotations example_program 0) ''type'' = Some (JString ''number'')
   \<and> field (getAnnotations example_program 0) ''anyOf'' =
       Some (JArray [JObject [(''const'', JNumber 1), (''description'', JString ''first'')],
                     JObject [(''const'', JNumber 2), (''description'', JString ''second'')]])
   \<and> field (getAnnotations example_program 0) ''title'' =
       Some (JString (spec_description [''Kinds of\<newline>block'']))"
proof -
  have run: "getAnnotations example_program 0 =
     Some [(''description'', JString ''Kinds of block''),
           (''anyOf'', JArray [JObject [(''const'', JNumber 1), (''description'', JString ''first'')],
                               JObject [(''const'', JNumber 2), (''description'', JString ''second'')]]),
           (''title'', JString ''Kinds of block''),
           (''type'', JString ''number'')]"
    by (simp add: run_defs)
  have "field (getAnnotations example_program 0) ''type'' = Some (JString ''number'')
   \<and> field (getAnnotations example_program 0) ''anyOf'' =
       Some (JArray [JObject [(''const'', JNumber 1), (''description'', JString ''first'')],
                     JObject [(''const'', JNumber 2), (''description'', JString ''second'')]])
   \<and> field (getAnnotations example_program 0) ''title'' =
       Some (JString (spec_description [''Kinds of\<newline>block'']))"
    using enum_annotations [of example_program 0 10 0 "[]" 2 3 12 13]
    by (simp add: example_program_def plain_def SymbolFlags_ConstEnum_def fields_of_def)
  with run show ?thesis by simp
qed

text \<open>
  The claim C3 as it is written fails where the base reader sets a field of the same
  name: the enum of node 14 carries \<open>@title My title\<close>, the base reader returns it as
  \<open>title\<close>, and in the merge it replaces the description that the enum branch put there.
\<close>

theorem enum_annotations_counterexample:
  "symbolAtNode example_program 14 = Some 24
   \<and> getFlags example_program 24 = SymbolFlags_ConstEnum
   \<and> map part_text (getDocumentationComment example_program 24) = [''Kinds of\<newline>block'']
   \<and> getDeclarations example_program 24 = Some [14]
   \<and> forEachChild example_program 14 = [1, 2, 3]
   \<and> getText example_program 2 = ''A = 1'' \<and> getText example_program 3 = ''B = 2''
   \<and> field (getDescriptionAnnotation example_program 14) ''title''
       = Some (JString ''Kinds of block'')
   \<and> field (getAnnotations example_program 14) ''title'' = Some (JString ''My title'')
   \<and> field (getAnnotations example_program 14) ''title'' \<noteq> Some (JString ''Kinds of block'')"
  by (simp add: run_defs)

text \<open>
  C4, as the code has it. The description is the documentation fragments joined with
  single spaces, without carriage returns, trimmed, and then with every soft break turned
  into a space: a line feed that has no line feed next to it and is not followed by \<open>*\<close>
  or \<open>-\<close>. "line one\<newline>line two" becomes "line one line two"; the line feed of
  "item one\<newline>- item two" stays; two fragments with a carriage return and outer
  whitespace come out joined, stripped and trimmed.
\<close>

theorem description_collapsing:
  "(\<forall>s. symbolAtNode r node = Some s \<and> getDocumentationComment r s \<noteq> [] \<longrightarrow>
        field (getDescriptionAnnotation r node) ''description'' =
          Some (JString (worded_description (map part_text (getDocumentationComment r s)))))
   \<and> worded_description [''line one\<newline>line two''] = ''line one line two''
   \<and> worded_description [''item one\<newline>- item two''] = ''item one\<newline>- item two''
   \<and> worded_description [''  a'' @ [CHR 0x0D] @ ''\<newline>b '', ''c\<newline>- d  '']
       = ''a b  c\<newline>- d''"
proof -
  have "worded_description [''line one\<newline>line two''] = ''line one line two''"
    unfolding worded_description_eq description_pipeline [symmetric]
    by (simp add: trim_def trimStart_def trimEnd_def is_js_whitespace_def strip_cr_def
          CR_def LF_def collapse_newlines_def)
  moreover have "worded_description [''item one\<newline>- item two''] = ''item one\<newline>- item two''"
    unfolding worded_description_eq description_pipeline [symmetric]
    by (simp add: trim_def trimStart_def trimEnd_def is_js_whitespace_def strip_cr_def
          CR_def LF_def collapse_newlines_def)
  moreover have "worded_description [''  a'' @ [CHR 0x0D] @ ''\<newline>b '', ''c\<newline>- d  '']
       = ''a b  c\<newline>- d''"
    unfolding worded_description_eq description_pipeline [symmetric]
    by (simp add: trim_def trimStart_def trimEnd_def is_js_whitespace_def strip_cr_def
          CR_def LF_def collapse_newlines_def)
  moreover have "field (getDescriptionAnnotation r node) ''description'' =
          Some (JString (worded_description (map part_text (getDocumentationComment r s))))"
    if "symbolAtNode r node = Some s" and "getDocumentationComment r s \<noteq> []" for s
    using description_group_description [OF that]
    by (simp add: field_def worded_description_eq)
  ultimately show ?thesis by blast
qed

theorem description_collapsing_witness:
  "field (getDescriptionAnnotation example_program 4) ''description'' =
     Some (JString ''line one line two'')
   \<and> field (getDescriptionAnnotation example_program 5) ''description'' =
     Some (JString ''item one\<newline>- item two'')
   \<and> field (getDescriptionAnnotation example_program 11) ''description'' =
     Some (JString ''a b  c\<newline>- d'')"
  using description_collapsing [of example_program 4] description_collapsing [of example_program 5]
    description_collapsing [of example_program 11]
  by (simp add: example_program_def plain_def)

text \<open>
  The claim C4 as it is written fails at a markdown heading: the line feed before
  \<open># Heading\<close> is next to a heading marker and is collapsed all the same, as \<open>#\<close> is
  not in the character class of the pattern.
\<close>

theorem description_collapsing_counterexample:
  "symbolAtNode example_program 12 = Some 22
   \<and> map part_text (getDocumentationComment example_program 22) = [''Intro\<newline># Heading'']
   \<and> field (getDescriptionAnnotation example_program 12) ''description''
       = Some (JString ''Intro # Heading'')
   \<and> field (getDescriptionAnnotation example_program 12) ''description''
       \<noteq> Some (JString ''Intro\<newline># Heading'')"
  by (simp add: run_defs)

lemma find_SomeD: "find P xs = Some x \<Longrightarrow> x \<in> set xs \<and> P x"
  by (induction xs) (auto split: if_splits)

text \<open>
  C5. Example extraction reads every tag named \<open>example\<close> in tag order, joins its body and
  parses it: the values that parse form the \<open>examples\<close> array in that order, a body that
  does not parse is left out and changes nothing else (the remaining examples are the
  same with or without that tag, and the description and type groups do not depend on
  the parser), and with no parsed value the group has no \<open>examples\<close> field at all.
\<close>

theorem example_extraction:
  "getExampleAnnotation r node =
     (case symbolAtNode r node of
        None \<Rightarrow> None
      | Some s \<Rightarrow>
          (let examples = List.map_filter (parsed_example r)
                            (filter (\<lambda>tag. name tag = ''example'') (getJsDocTags r s))
           in if examples = [] then None else Some [(''examples'', JArray examples)]))
   \<and> (\<forall>e. json5_parse r (tag_body tag) = Inl e \<longrightarrow>
          examples_loop r (before @ tag # after) [] = examples_loop r (before @ after) [])
   \<and> (\<forall>v. json5_parse r (tag_body tag) = Inr v \<longrightarrow>
          examples_loop r (before @ [tag]) [] = examples_loop r before [] @ [v])
   \<and> getDescriptionAnnotation (r\<lparr>json5_parse := p\<rparr>) node = getDescriptionAnnotation r node
   \<and> getTypeAnnotation (r\<lparr>json5_parse := p\<rparr>) node = getTypeAnnotation r node
   \<and> field (getExampleAnnotation r node) ''examples'' \<noteq> Some (JArray [])"
proof -
  have closed: "getExampleAnnotation r node =
     (case symbolAtNode r node of
        None \<Rightarrow> None
      | Some s \<Rightarrow>
          (let examples = List.map_filter (parsed_example r)
                            (filter (\<lambda>tag. name tag = ''example'') (getJsDocTags r s))
           in if examples = [] then None else Some [(''examples'', JArray examples)]))"
    by (auto simp: getExampleAnnotation_def examples_loop_eq Let_def List.map_filter_simps
          split: option.splits)
  have dropped: "examples_loop r (before @ tag # after) [] = examples_loop r (before @ after) []"
    if "json5_parse r (tag_body tag) = Inl e" for e
    using that
    by (simp add: examples_loop_eq List.map_filter_def parsed_example_def)
  have kept: "examples_loop r (before @ [tag]) [] = examples_loop r before [] @ [v]"
    if "json5_parse r (tag_body tag) = Inr v" for v
    using that
    by (simp add: examples_loop_eq List.map_filter_def parsed_example_def)
  have "member_descriptor (r\<lparr>json5_parse := p\<rparr>) = member_descriptor r"
    by (rule ext) (simp add: member_descriptor_def split: option.splits)
  then have members: "enum_members (r\<lparr>json5_parse := p\<rparr>) cs acc = enum_members r cs acc"
    for cs acc
    by (simp add: enum_members_eq)
  have d: "getDescriptionAnnotation (r\<lparr>json5_parse := p\<rparr>) node = getDescriptionAnnotation r node"
    by (simp add: getDescriptionAnnotation_def members Let_def
          split: option.splits list.splits)
  have t: "getTypeAnnotation (r\<lparr>json5_parse := p\<rparr>) node = getTypeAnnotation r node"
    by (simp add: getTypeAnnotation_def Let_def split: option.splits)
  have ne: "field (getExampleAnnotation r node) ''examples'' \<noteq> Some (JArray [])"
    by (auto simp: closed field_def fields_of_def Let_def split: option.splits)
  from closed dropped kept d t ne show ?thesis by blast
qed

theorem example_extraction_witness:
  "getExampleAnnotation example_program 4 = Some [(''examples'', JArray [JNumber 1, JNumber 2])]
   \<and> getExampleAnnotation example_program 6 = None
   \<and> examples_loop example_program
        [\<lparr>name = ''example'', tag_text = Some [plain ''1'']\<rparr>,
         \<lparr>name = ''example'', tag_text = Some [plain ''not json'']\<rparr>,
         \<lparr>name = ''example'', tag_text = Some [plain ''2'']\<rparr>] []
     = examples_loop example_program
        [\<lparr>name = ''example'', tag_text = Some [plain ''1'']\<rparr>,
         \<lparr>name = ''example'', tag_text = Some [plain ''2'']\<rparr>] []
   \<and> examples_loop example_program
        [\<lparr>name = ''example'', tag_text = Some [plain ''1'']\<rparr>,
         \<lparr>name = ''example'', tag_text = Some [plain ''2'']\<rparr>] []
     = examples_loop example_program
        [\<lparr>name = ''example'', tag_text = Some [plain ''1'']\<rparr>] [] @ [JNumber 2]"
  using example_extraction [where r = example_program and node = 4]
    example_extraction [where r = example_program and node = 6]
    example_extraction [where r = example_program
      and tag = "\<lparr>name = ''example'', tag_text = Some [plain ''2'']\<rparr>"
      and before = "[\<lparr>name = ''example'', tag_text = Some [plain ''1'']\<rparr>]"]
    example_extraction [where r = example_program
      and tag = "\<lparr>name = ''example'', tag_text = Some [plain ''not json'']\<rparr>"
      and before = "[\<lparr>name = ''example'', tag_text = Some [plain ''1'']\<rparr>]"
      and after = "[\<lparr>name = ''example'', tag_text = Some [plain ''2'']\<rparr>]"]
  by (simp add: example_program_def plain_def tag_body_def parsed_example_def
        List.map_filter_simps)

text \<open>
  C6. The type group is to be \<open>type: "number"\<close> whenever the \<open>ConstEnum\<close> flag of the symbol
  is set, before any \<open>asType\<close> tag is looked at. The code compares the whole flag word with
  \<open>ConstEnum\<close>: for the const enum of node 7, which is merged with a namespace, the flag
  is set, the comparison fails and the type is the body of the \<open>asType\<close> tag.
\<close>

theorem merged_enum_type:
  "symbolAtNode example_program 7 = Some 17
   \<and> getFlags example_program 17 = SymbolFlags_ConstEnum + SymbolFlags_NamespaceModule
   \<and> flag_set (getFlags example_program 17) SymbolFlags_ConstEnum
   \<and> getTypeAnnotation example_program 7 \<noteq> Some [(''type'', JString ''number'')]
   \<and> getTypeAnnotation example_program 7 = Some [(''type'', JString ''CustomType'')]"
  by (simp add: run_defs join_nil)




text \<open>
  C9. Where no call of the compiler interface, of \<open>symbolAtNode\<close> or of the base reader
  throws, \<open>getAnnotations\<close> and \<open>isNullable\<close> return, whatever \<open>json5.parse\<close> does:
  \<open>getAnnotations\<close> gives absent or a record with at least one field, the one of the
  reader without faults. And whatever the calls do, an exception that leaves either
  method is one that such a call threw: none comes from the reader itself, and none from
  \<open>json5.parse\<close>, which the loop catches.
\<close>

theorem never_throws:
  "((\<forall>c. f c = None) \<longrightarrow>
      getAnnotations_run r f node = Inr (getAnnotations r node)
      \<and> isNullable_run r f node = Inr (isNullable r node)
      \<and> (getAnnotations r node = None
           \<or> (\<exists>a. getAnnotations r node = Some a \<and> Object_keys a \<noteq> [])))
   \<and> (\<forall>e. getAnnotations_run r f node = Inl e \<longrightarrow> (\<exists>c. f c = Some e))
   \<and> (\<forall>e. isNullable_run r f node = Inl e \<longrightarrow> (\<exists>c. f c = Some e))"
proof -
  have shape: "getAnnotations r node = None
      \<or> (\<exists>a. getAnnotations r node = Some a \<and> Object_keys a \<noteq> [])"
    by (simp add: getAnnotations_def Let_def)
  have returns: "getAnnotations_run r f node = Inr (getAnnotations r node)
      \<and> isNullable_run r f node = Inr (isNullable r node)"
    if "\<forall>c. f c = None"
    using that by (simp add: getAnnotations_run_eq isNullable_run_eq)
  from shape returns getAnnotations_run_throws [of r f node]
    isNullable_run_throws [of r f node]
  show ?thesis by blast
qed

theorem never_throws_witness:
  "getAnnotations_run example_program no_faults 4 =
     Inr (Some [(''description'', JString ''line one line two''),
                (''type'', JString ''CustomType''),
                (''examples'', JArray [JNumber 1, JNumber 2])])
   \<and> isNullable_run example_program no_faults 4 = Inr True
   \<and> getAnnotations_run example_program getText_throws 0 = Inl (Thrown ''getText'')
   \<and> (\<exists>c. getText_throws c = Some (Thrown ''getText''))"
proof -
  have pure: "getAnnotations example_program 4 =
     Some [(''description'', JString ''line one line two''),
           (''type'', JString ''CustomType''),
           (''examples'', JArray [JNumber 1, JNumber 2])]"
    "isNullable example_program 4"
    by (simp_all add: run_defs join_nil)
  have thrown: "getAnnotations_run example_program getText_throws 0 = Inl (Thrown ''getText'')"
    by (simp add: fault_defs example_program_def plain_def SymbolFlags_ConstEnum_def
          trim_def trimStart_def trimEnd_def is_js_whitespace_def strip_cr_def CR_def)
  have "\<exists>c. getText_throws c = Some (Thrown ''getText'')"
    using never_throws [of getText_throws example_program 0] thrown by simp
  moreover have "getAnnotations_run example_program no_faults 4 =
       Inr (getAnnotations example_program 4)
     \<and> isNullable_run example_program no_faults 4 = Inr (isNullable example_program 4)"
    using never_throws [of no_faults example_program 4] by (simp add: no_faults_def)
  ultimately show ?thesis using pure thrown by simp
qed

text \<open>
  C10, as the code has it. For a symbol whose flags are not \<open>ConstEnum\<close> (so for every
  symbol that is not a const enum), the type group has its field exactly when a tag named
  \<open>asType\<close> is there. Where the first tag of that name has no body or an empty one, the
  type group is \<open>type: ""\<close>, and so is the \<open>type\<close> of the result of \<open>getAnnotations\<close>
  unless the base reader sets one.
\<close>

theorem asType_empty_body:
  assumes "symbolAtNode r node = Some s"
    and "getFlags r s \<noteq> SymbolFlags_ConstEnum"
  shows "(\<forall>tag. find (\<lambda>tag. name tag = ''asType'') (getJsDocTags r s) = Some tag
              \<and> (tag_text tag = None \<or> tag_text tag = Some [] \<or> tag_body tag = []) \<longrightarrow>
            getTypeAnnotation r node = Some [(''type'', JString [])]
            \<and> (map_of (fields_of (super_getAnnotations r node)) ''type'' = None \<longrightarrow>
                 field (getAnnotations r node) ''type'' = Some (JString [])))
       \<and> (field (getTypeAnnotation r node) ''type'' \<noteq> None \<longleftrightarrow>
            (\<exists>tag \<in> set (getJsDocTags r s). name tag = ''asType''))"
proof -
  have closed: "getTypeAnnotation r node =
       (case find (\<lambda>tag. name tag = ''asType'') (getJsDocTags r s) of
          None \<Rightarrow> None
        | Some tag \<Rightarrow> Some [(''type'', JString (tag_body tag))])"
    using assms
    by (auto simp: getTypeAnnotation_def Let_def tag_body_def join_nil split: option.splits)
  have empty: "getTypeAnnotation r node = Some [(''type'', JString [])]
            \<and> (map_of (fields_of (super_getAnnotations r node)) ''type'' = None \<longrightarrow>
                 field (getAnnotations r node) ''type'' = Some (JString []))"
    if f: "find (\<lambda>tag. name tag = ''asType'') (getJsDocTags r s) = Some tag"
      and b: "tag_text tag = None \<or> tag_text tag = Some [] \<or> tag_body tag = []" for tag
  proof -
    from b have "tag_body tag = []" by (auto simp: tag_body_def)
    with f have t: "getTypeAnnotation r node = Some [(''type'', JString [])]"
      by (simp add: closed)
    then show ?thesis
      by (simp add: field_getAnnotations map_add_def fields_of_def example_group_keys
            [unfolded fields_of_def] split: option.splits)
  qed
  have presence: "field (getTypeAnnotation r node) ''type'' \<noteq> None \<longleftrightarrow>
            (\<exists>tag \<in> set (getJsDocTags r s). name tag = ''asType'')"
    by (auto simp: closed field_def fields_of_def find_None_iff dest: find_SomeD
          split: option.splits)
  from empty presence show ?thesis by blast
qed

theorem asType_empty_body_witness:
  "getTypeAnnotation example_program 6 = Some [(''type'', JString [])]
   \<and> field (getAnnotations example_program 6) ''type'' = Some (JString [])
   \<and> field (getTypeAnnotation example_program 5) ''type'' = None"
  using asType_empty_body [of example_program 6 16] asType_empty_body [of example_program 5 15]
  by (simp add: example_program_def SymbolFlags_ConstEnum_def fields_of_def tag_body_def)

text \<open>
  The claim C10 as it is written fails for a symbol with two \<open>asType\<close> tags: node 13
  carries \<open>@asType Foo\<close> and then \<open>@asType\<close> with no body, so it carries a tag named
  \<open>asType\<close> with an absent body; the first one is read and the type is "Foo".
\<close>

theorem asType_empty_body_counterexample:
  "symbolAtNode example_program 13 = Some 23
   \<and> getFlags example_program 23 \<noteq> SymbolFlags_ConstEnum
   \<and> \<not> flag_set (getFlags example_program 23) SymbolFlags_ConstEnum
   \<and> \<lparr>name = ''asType'', tag_text = None\<rparr> \<in> set (getJsDocTags example_program 23)
   \<and> field (getAnnotations example_program 13) ''type'' = Some (JString ''Foo'')
   \<and> field (getAnnotations example_program 13) ''type'' \<noteq> Some (JString [])"
  by (simp add: run_defs join_nil)

end
